theory Spec2Isabelle
  imports Complex_Main "HOL-Library.Log_Nat"
begin

section \<open>JavaScript values used by the query handling\<close>

text \<open>
  The handlers and query-parameter processors work on strings taken from the URL and on
  JavaScript numbers obtained from them with \<^verbatim>\<open>parseInt(s, 10)\<close>.

  A string is a \<^typ>\<open>string\<close>; the characters of the model are the code units below 256.

  A number is \<^verbatim>\<open>NaN\<close> or an integer. JavaScript numbers are IEEE doubles, which
  represent every integer of magnitude at most \<open>2^53 - 1\<close> exactly and compute sums,
  differences and products of such integers exactly as long as the result stays in that
  range. The model computes with \<^typ>\<open>int\<close>; the theorems that state numeric results carry
  the hypothesis that the parsed numbers are small enough for this to be what the program
  computes (\<open>exact_param\<close> below). Where a statement ranges over every input, the
  processor is modelled on doubles, with rounding and infinities (\<open>round_double\<close> below);
  on exact parameters the two models agree (\<open>models_agree\<close>).
\<close>

datatype jsnum = NaN | Num int

definition MAX_SAFE_INTEGER :: int where
  "MAX_SAFE_INTEGER = 2 ^ 53 - 1"

definition is_digit :: "char \<Rightarrow> bool" where
  "is_digit c = (48 \<le> (of_char c :: nat) \<and> (of_char c :: nat) \<le> 57)"

definition digit_val :: "char \<Rightarrow> int" where
  "digit_val c = int (of_char c) - 48"

text \<open>White space skipped by \<^verbatim>\<open>parseInt\<close>: TAB, LF, VT, FF, CR, SP and NBSP.\<close>

definition is_js_space :: "char \<Rightarrow> bool" where
  "is_js_space c = ((of_char c :: nat) \<in> {9, 10, 11, 12, 13, 32, 160})"

definition digits_value :: "string \<Rightarrow> int" where
  "digits_value ds = foldl (\<lambda>acc c. 10 * acc + digit_val c) 0 ds"

text \<open>
  \<^verbatim>\<open>parseInt(s, 10)\<close>: leading white space is skipped, one sign is read, then the
  longest prefix of decimal digits; with no digit there the result is \<^verbatim>\<open>NaN\<close>.
  Anything after the digits is ignored. (Radix 10 is given, so no \<^verbatim>\<open>0x\<close> prefix is
  recognised; \<^verbatim>\<open>-0\<close> is the number 0 of the model.)
\<close>

definition parseInt :: "string \<Rightarrow> jsnum" where
  "parseInt s =
     (let t = dropWhile is_js_space s;
          sign = (case t of c # _ \<Rightarrow> if c = CHR ''-'' then - 1 else 1 | [] \<Rightarrow> 1);
          u = (case t of c # r \<Rightarrow> if c = CHR ''-'' \<or> c = CHR ''+'' then r else t | [] \<Rightarrow> []);
          ds = takeWhile is_digit u
      in if ds = [] then NaN else Num (sign * digits_value ds))"

text \<open>The test \<^verbatim>\<open>/^\d+$/.test(val)\<close>: one or more decimal digits and nothing else.\<close>

definition digit_string :: "string \<Rightarrow> bool" where
  "digit_string s = (s \<noteq> [] \<and> list_all is_digit s)"

text \<open>
  \<^verbatim>\<open>v ? parseInt(v, 10) : undefined\<close> on an optional string: \<^verbatim>\<open>undefined\<close> and the
  empty string are falsy.
\<close>

definition parse_param :: "string option \<Rightarrow> jsnum option" where
  "parse_param v =
     (case v of None \<Rightarrow> None | Some s \<Rightarrow> if s \<noteq> [] then Some (parseInt s) else None)"

text \<open>
  A parameter is exact when the number parsed from it, multiplied by the largest page
  size 100, is still an integer that a double represents exactly.
\<close>

definition exact_param :: "string option \<Rightarrow> bool" where
  "exact_param v =
     (case parse_param v of
        Some (Num n) \<Rightarrow> \<bar>n\<bar> * 100 \<le> MAX_SAFE_INTEGER
      | _ \<Rightarrow> True)"

section \<open>Validation schemas and the query-parameter processor\<close>

text \<open>
  \<^verbatim>\<open>src/api/validations/likes.ts\<close> and \<^verbatim>\<open>src/api/validations/followers.ts\<close>. The two
  files differ in the entity's name only.
\<close>

record list_query =
  q_page :: "string option"
  q_limit :: "string option"
  q_name :: "string option"
  q_description :: "string option"

record search_query =
  sq_query :: "string option"
  sq_page :: "string option"
  sq_limit :: "string option"

datatype issue_code = invalid_type | too_small | too_big | custom

type_synonym issue = "string \<times> issue_code"

text \<open>
  A zod schema is modelled by its \<^verbatim>\<open>safeParse\<close>, which never throws: it returns
  the issues found (\<open>Inl\<close>) or the parsed data (\<open>Inr\<close>).
\<close>

definition parse_result :: "issue list \<Rightarrow> 'a \<Rightarrow> issue list + 'a" where
  "parse_result issues x = (if issues = [] then Inr x else Inl issues)"

text \<open>
  An optional string refined by the digit test (\<^verbatim>\<open>page\<close> and \<^verbatim>\<open>limit\<close> of the
  query schemas).
\<close>

definition check_digits :: "string \<Rightarrow> string option \<Rightarrow> issue list" where
  "check_digits path v =
     (case v of
        None \<Rightarrow> []
      | Some s \<Rightarrow> if digit_string s then [] else [(path, custom)])"

definition likesQuerySchema :: "list_query \<Rightarrow> issue list + list_query" where
  "likesQuerySchema q =
     parse_result (check_digits ''page'' (q_page q) @ check_digits ''limit'' (q_limit q)) q"

definition followersQuerySchema :: "list_query \<Rightarrow> issue list + list_query" where
  "followersQuerySchema q =
     parse_result (check_digits ''page'' (q_page q) @ check_digits ''limit'' (q_limit q)) q"

text \<open>
  The search schemas: \<^verbatim>\<open>query\<close> is a required string of length at least 1, so the
  parsed data has a \<^verbatim>\<open>query\<close> that is a string.
\<close>

record valid_search_query =
  vq_query :: string
  vq_page :: "string option"
  vq_limit :: "string option"

definition likesSearchQuerySchema :: "search_query \<Rightarrow> issue list + valid_search_query" where
  "likesSearchQuerySchema q =
     (let rest = check_digits ''page'' (sq_page q) @ check_digits ''limit'' (sq_limit q)
      in case sq_query q of
           None \<Rightarrow> Inl ((''query'', invalid_type) # rest)
         | Some s \<Rightarrow>
             parse_result ((if length s < 1 then [(''query'', too_small)] else []) @ rest)
               \<lparr>vq_query = s, vq_page = sq_page q, vq_limit = sq_limit q\<rparr>)"

definition followersSearchQuerySchema :: "search_query \<Rightarrow> issue list + valid_search_query" where
  "followersSearchQuerySchema q =
     (let rest = check_digits ''page'' (sq_page q) @ check_digits ''limit'' (sq_limit q)
      in case sq_query q of
           None \<Rightarrow> Inl ((''query'', invalid_type) # rest)
         | Some s \<Rightarrow>
             parse_result ((if length s < 1 then [(''query'', too_small)] else []) @ rest)
               \<lparr>vq_query = s, vq_page = sq_page q, vq_limit = sq_limit q\<rparr>)"

record internal_params =
  i_skip :: "jsnum option"
  i_take :: "jsnum option"
  i_page :: "jsnum option"
  i_limit :: "jsnum option"
  i_name :: "string option"
  i_description :: "string option"

text \<open>
  \<^verbatim>\<open>z.number().int().min(lo).max(hi).optional()\<close>: \<^verbatim>\<open>undefined\<close> passes, \<^verbatim>\<open>NaN\<close>
  is not a number for zod, and every bound that fails is reported. Every \<open>Num\<close> of the
  model is an integer.
\<close>

definition check_number :: "string \<Rightarrow> int \<Rightarrow> int option \<Rightarrow> jsnum option \<Rightarrow> issue list" where
  "check_number path lo hi v =
     (case v of
        None \<Rightarrow> []
      | Some NaN \<Rightarrow> [(path, invalid_type)]
      | Some (Num n) \<Rightarrow>
          (if n < lo then [(path, too_small)] else [])
          @ (case hi of None \<Rightarrow> [] | Some h \<Rightarrow> if h < n then [(path, too_big)] else []))"

definition internalQueryParamsSchema :: "internal_params \<Rightarrow> issue list + internal_params" where
  "internalQueryParamsSchema p =
     parse_result
       (check_number ''skip'' 0 None (i_skip p)
        @ check_number ''take'' 1 (Some 100) (i_take p)
        @ check_number ''page'' 1 None (i_page p)
        @ check_number ''limit'' 1 (Some 100) (i_limit p)) p"

datatype mode = insensitive

datatype field_filter = Contains string mode | StartsWith string mode

type_synonym where_obj = "string \<rightharpoonup> field_filter"

record processed =
  p_where :: where_obj
  p_skip :: int
  p_take :: int

text \<open>Lines 78 and 79: \<^verbatim>\<open>NaN\<close>, 0 and \<^verbatim>\<open>undefined\<close> are falsy.\<close>

definition derive_take :: "jsnum option \<Rightarrow> int" where
  "derive_take limit =
     (case limit of
        Some (Num l) \<Rightarrow> if l \<noteq> 0 \<and> l > 0 \<and> l \<le> 100 then l else 10
      | _ \<Rightarrow> 10)"

definition derive_skip :: "jsnum option \<Rightarrow> int \<Rightarrow> int" where
  "derive_skip page tk =
     (case page of
        Some (Num p) \<Rightarrow> if p \<noteq> 0 \<and> p > 0 then (p - 1) * tk else 0
      | _ \<Rightarrow> 0)"

text \<open>The object handed to \<^verbatim>\<open>internalQueryParamsSchema.safeParse\<close> (lines 82 to 89).\<close>

definition internal_input :: "list_query \<Rightarrow> internal_params" where
  "internal_input q =
     (let page = parse_param (q_page q);
          limit = parse_param (q_limit q);
          tk = derive_take limit;
          sk = derive_skip page tk
      in \<lparr>i_skip = Some (Num sk), i_take = Some (Num tk), i_page = page, i_limit = limit,
          i_name = q_name q, i_description = q_description q\<rparr>)"

text \<open>\<^verbatim>\<open>if (v) where[key] = { contains: v, mode: 'insensitive' }\<close>\<close>

definition add_contains :: "string \<Rightarrow> string option \<Rightarrow> where_obj \<Rightarrow> where_obj" where
  "add_contains key v w =
     (case v of
        None \<Rightarrow> w
      | Some s \<Rightarrow> if s \<noteq> [] then w(key \<mapsto> Contains s insensitive) else w)"

text \<open>
  \<^verbatim>\<open>processLikesQueryParams\<close>. The call of \<^verbatim>\<open>console.error\<close> on the failure branch
  writes to the log only and is left out.
\<close>

definition processLikesQueryParams :: "list_query \<Rightarrow> processed" where
  "processLikesQueryParams q =
     (let page = parse_param (q_page q);
          limit = parse_param (q_limit q);
          tk = derive_take limit;
          sk = derive_skip page tk
      in case internalQueryParamsSchema
                \<lparr>i_skip = Some (Num sk), i_take = Some (Num tk), i_page = page,
                 i_limit = limit, i_name = q_name q, i_description = q_description q\<rparr> of
           Inl err \<Rightarrow> \<lparr>p_where = Map.empty, p_skip = 0, p_take = 10\<rparr>
         | Inr data \<Rightarrow>
             \<lparr>p_where =
                add_contains ''description'' (i_description data)
                  (add_contains ''name'' (i_name data) Map.empty),
              p_skip = sk, p_take = tk\<rparr>)"

definition processFollowersQueryParams :: "list_query \<Rightarrow> processed" where
  "processFollowersQueryParams q =
     (let page = parse_param (q_page q);
          limit = parse_param (q_limit q);
          tk = derive_take limit;
          sk = derive_skip page tk
      in case internalQueryParamsSchema
                \<lparr>i_skip = Some (Num sk), i_take = Some (Num tk), i_page = page,
                 i_limit = limit, i_name = q_name q, i_description = q_description q\<rparr> of
           Inl err \<Rightarrow> \<lparr>p_where = Map.empty, p_skip = 0, p_take = 10\<rparr>
         | Inr data \<Rightarrow>
             \<lparr>p_where =
                add_contains ''description'' (i_description data)
                  (add_contains ''name'' (i_name data) Map.empty),
              p_skip = sk, p_take = tk\<rparr>)"

section \<open>Storage, responses and the middleware\<close>

text \<open>
  The routers of \<^verbatim>\<open>src/api/routes/hashtags.ts\<close> and of the three route files kept
  with \<^verbatim>\<open>likes.ts\<close> and in \<^verbatim>\<open>src/unnamed/part_000\<close> (comments, posts, likes).
  They differ in the entity's name and in the column searched.
\<close>

datatype entity = Posts | Likes | Comments | Hashtags

fun entity_name :: "entity \<Rightarrow> string" where
  "entity_name Posts = ''posts''"
| "entity_name Likes = ''likes''"
| "entity_name Comments = ''comments''"
| "entity_name Hashtags = ''hashtags''"

datatype where_clause = Where where_obj | WhereOr "where_obj list"

text \<open>
  The storage layer is a collaborator: each call returns a value or rejects with a thrown
  value, which is an \<^verbatim>\<open>Error\<close> with its message or something else. A handler's result
  is its response together with the storage calls it has issued, in order.
\<close>

datatype thrown = ErrorObj string | OtherValue

datatype 'a outcome = Returns 'a | Throws thrown

record 'r storage =
  st_findMany :: "where_clause \<Rightarrow> jsnum \<Rightarrow> jsnum \<Rightarrow> 'r list outcome"
  st_count :: "where_clause \<Rightarrow> nat outcome"
  st_findUnique :: "string \<Rightarrow> 'r option outcome"

datatype call = FindMany where_clause jsnum jsnum | Count where_clause | FindUnique string

text \<open>
  A response body is JSON: a number that is \<^verbatim>\<open>NaN\<close> or infinite is written as
  \<^verbatim>\<open>null\<close>, which is \<open>None\<close> in \<open>meta\<close>.
\<close>

record meta =
  m_total :: nat
  m_skip :: "int option"
  m_take :: "int option"
  m_page :: "int option"
  m_totalPages :: "int option"

datatype 'r body =
    Page "'r list" meta
  | Item 'r
  | Failure string "string option"
  | Invalid "issue list"

record 'r response =
  status :: nat
  body :: "'r body"

definition json_number :: "jsnum \<Rightarrow> int option" where
  "json_number x = (case x of NaN \<Rightarrow> None | Num n \<Rightarrow> Some n)"

text \<open>
  \<^verbatim>\<open>Math.floor(a / b)\<close> and \<^verbatim>\<open>Math.ceil(a / b)\<close> on integers: with \<open>b = 0\<close> the
  quotient is \<^verbatim>\<open>NaN\<close> or infinite. For exact integers and \<open>b \<noteq> 0\<close> the rounded
  quotient of the doubles has the floor and the ceiling of the exact quotient.
\<close>

definition floor_quotient :: "int \<Rightarrow> int \<Rightarrow> int option" where
  "floor_quotient a b = (if b = 0 then None else Some (a div b))"

definition ceil_quotient :: "int \<Rightarrow> int \<Rightarrow> int option" where
  "ceil_quotient a b = (if b = 0 then None else Some (- ((- a) div b)))"

text \<open>\<^verbatim>\<open>error instanceof Error ? error.message : fallback\<close>\<close>

definition error_details :: "thrown \<Rightarrow> string \<Rightarrow> string" where
  "error_details err fallback = (case err of ErrorObj msg \<Rightarrow> msg | OtherValue \<Rightarrow> fallback)"

text \<open>
  \<^verbatim>\<open>zValidator(target, schema)\<close> of \<^verbatim>\<open>@hono/zod-validator\<close>, used without a hook:
  when the parse fails it answers 400 with the parse result and the handler behind it is
  not run; otherwise the handler gets the parsed data.
\<close>

definition zValidator ::
  "('a \<Rightarrow> issue list + 'b) \<Rightarrow> ('b \<Rightarrow> 'r response \<times> call list) \<Rightarrow> 'a \<Rightarrow> 'r response \<times> call list" where
  "zValidator schema handler x =
     (case schema x of
        Inl issues \<Rightarrow> (\<lparr>status = 400, body = Invalid issues\<rparr>, [])
      | Inr v \<Rightarrow> handler v)"

section \<open>Route handlers\<close>

text \<open>
  \<^verbatim>\<open>c.json(x)\<close> answers with the status set by \<^verbatim>\<open>c.status\<close> before it, and with 200
  when no status was set. \<^verbatim>\<open>Promise.all\<close> starts both storage calls before it waits
  for either; when both reject, the model reports the rejection of \<^verbatim>\<open>findMany\<close>.
\<close>

definition list_handler ::
  "(list_query \<Rightarrow> processed) \<Rightarrow> entity \<Rightarrow> 'r storage \<Rightarrow> list_query \<Rightarrow> 'r response \<times> call list" where
  "list_handler processQueryParams e st validatedQuery =
     (let options = processQueryParams validatedQuery;
          whereClause = Where (p_where options);
          sk = Num (p_skip options);
          tk = Num (p_take options);
          calls = [FindMany whereClause sk tk, Count whereClause];
          failed = (\<lambda>err. (\<lparr>status = 500,
                      body = Failure (''Failed to retrieve '' @ entity_name e)
                               (Some (error_details err ''Unknown internal error''))\<rparr>, calls))
      in case st_findMany st whereClause sk tk of
           Throws err \<Rightarrow> failed err
         | Returns items \<Rightarrow>
             (case st_count st whereClause of
                Throws err \<Rightarrow> failed err
              | Returns totalCount \<Rightarrow>
                  (\<lparr>status = 200,
                    body = Page items
                      \<lparr>m_total = totalCount,
                       m_skip = Some (p_skip options),
                       m_take = Some (p_take options),
                       m_page = map_option (\<lambda>x. x + 1)
                                  (floor_quotient (p_skip options) (p_take options)),
                       m_totalPages = ceil_quotient (int totalCount) (p_take options)\<rparr>\<rparr>, calls)))"

text \<open>
  The catch branch of the get-by-id handler (lines 74 to 82 of \<^verbatim>\<open>hashtags.ts\<close>) calls
  \<^verbatim>\<open>c.json\<close> without \<^verbatim>\<open>c.status\<close>.
\<close>

definition get_by_id_handler :: "entity \<Rightarrow> 'r storage \<Rightarrow> string \<Rightarrow> 'r response \<times> call list" where
  "get_by_id_handler e st ident =
     (let calls = [FindUnique ident]
      in case st_findUnique st ident of
           Returns None \<Rightarrow>
             (\<lparr>status = 404, body = Failure (entity_name e @ '' not found'') None\<rparr>, calls)
         | Returns (Some item) \<Rightarrow> (\<lparr>status = 200, body = Item item\<rparr>, calls)
         | Throws err \<Rightarrow>
             (\<lparr>status = 200,
               body = Failure ''Failed to retrieve item''
                        (Some (error_details err ''An unknown error occurred''))\<rparr>, calls))"

text \<open>Arithmetic of the search handler; \<^verbatim>\<open>NaN\<close> propagates through every operation.\<close>

definition js_lift :: "(int \<Rightarrow> int \<Rightarrow> int) \<Rightarrow> jsnum \<Rightarrow> jsnum \<Rightarrow> jsnum" where
  "js_lift f a b = (case (a, b) of (Num x, Num y) \<Rightarrow> Num (f x y) | _ \<Rightarrow> NaN)"

fun search_where :: "entity \<Rightarrow> string \<Rightarrow> where_clause" where
  "search_where Posts s = WhereOr [[''content'' \<mapsto> StartsWith s insensitive]]"
| "search_where Likes s = Where Map.empty"
| "search_where Comments s = WhereOr [[''content'' \<mapsto> StartsWith s insensitive]]"
| "search_where Hashtags s = WhereOr [[''name'' \<mapsto> StartsWith s insensitive]]"

text \<open>Lines 182 to 187 of \<^verbatim>\<open>hashtags.ts\<close>: the page, \<^verbatim>\<open>take\<close> and \<^verbatim>\<open>skip\<close>.\<close>

definition search_page :: "valid_search_query \<Rightarrow> jsnum" where
  "search_page validatedQuery =
     (case vq_page validatedQuery of
        Some s \<Rightarrow> if s \<noteq> [] then parseInt s else Num 1
      | None \<Rightarrow> Num 1)"

definition search_limit :: "valid_search_query \<Rightarrow> jsnum" where
  "search_limit validatedQuery =
     (case vq_limit validatedQuery of
        Some s \<Rightarrow> if s \<noteq> [] then parseInt s else Num 10
      | None \<Rightarrow> Num 10)"

definition search_take :: "valid_search_query \<Rightarrow> jsnum" where
  "search_take validatedQuery =
     js_lift min (js_lift max (search_limit validatedQuery) (Num 1)) (Num 100)"

definition search_skip :: "valid_search_query \<Rightarrow> jsnum" where
  "search_skip validatedQuery =
     js_lift (*) (js_lift (-) (search_page validatedQuery) (Num 1)) (search_take validatedQuery)"

definition search_handler ::
  "entity \<Rightarrow> 'r storage \<Rightarrow> valid_search_query \<Rightarrow> 'r response \<times> call list" where
  "search_handler e st validatedQuery =
     (let page = search_page validatedQuery;
          tk = search_take validatedQuery;
          sk = search_skip validatedQuery;
          whereClause = search_where e (vq_query validatedQuery);
          calls = [FindMany whereClause sk tk, Count whereClause];
          failed = (\<lambda>err. (\<lparr>status = 500,
                      body = Failure (''Failed to search '' @ entity_name e)
                               (Some (error_details err ''Unknown internal error''))\<rparr>, calls))
      in case st_findMany st whereClause sk tk of
           Throws err \<Rightarrow> failed err
         | Returns items \<Rightarrow>
             (case st_count st whereClause of
                Throws err \<Rightarrow> failed err
              | Returns totalCount \<Rightarrow>
                  (\<lparr>status = 200,
                    body = Page items
                      \<lparr>m_total = totalCount,
                       m_skip = json_number sk,
                       m_take = json_number tk,
                       m_page = json_number page,
                       m_totalPages =
                         (case tk of NaN \<Rightarrow> None | Num t \<Rightarrow> ceil_quotient (int totalCount) t)\<rparr>\<rparr>,
                   calls)))"

text \<open>
  The routes, each a validator in front of its handler. The schemas and the processor are
  the ones the route file imports from the entity's validation file; the id schema accepts
  every string.
\<close>

definition list_route ::
  "(list_query \<Rightarrow> issue list + list_query) \<Rightarrow> (list_query \<Rightarrow> processed) \<Rightarrow> entity \<Rightarrow> 'r storage
     \<Rightarrow> list_query \<Rightarrow> 'r response \<times> call list" where
  "list_route querySchema processQueryParams e st =
     zValidator querySchema (list_handler processQueryParams e st)"

definition get_by_id_route :: "entity \<Rightarrow> 'r storage \<Rightarrow> string \<Rightarrow> 'r response \<times> call list" where
  "get_by_id_route e st = zValidator Inr (get_by_id_handler e st)"

definition search_route ::
  "(search_query \<Rightarrow> issue list + valid_search_query) \<Rightarrow> entity \<Rightarrow> 'r storage
     \<Rightarrow> search_query \<Rightarrow> 'r response \<times> call list" where
  "search_route searchQuerySchema e st = zValidator searchQuerySchema (search_handler e st)"

section \<open>Routers\<close>

text \<open>
  Each route file registers its six routes on one \<^verbatim>\<open>Hono\<close> instance in the same
  order. Hono runs the handlers of the routes that match a request in the order of their
  registration, and the first one that answers ends the dispatch; every handler of these
  files answers. A path is the list of its segments below the entity's prefix, and
  \<^verbatim>\<open>:id\<close> matches any one segment that is not empty.
\<close>

datatype http_method = GET | POST | PUT | DELETE

datatype segment = Lit string | Param string

datatype handler_id = ListH | GetByIdH | CreateH | UpdateH | DeleteH | SearchH

type_synonym route = "http_method \<times> segment list \<times> handler_id"

definition routes :: "entity \<Rightarrow> route list" where
  "routes e =
     [(GET, [], ListH),
      (GET, [Param ''id''], GetByIdH),
      (POST, [], CreateH),
      (PUT, [Param ''id''], UpdateH),
      (DELETE, [Param ''id''], DeleteH),
      (GET, [Lit ''search''], SearchH)]"

fun match_path :: "segment list \<Rightarrow> string list \<Rightarrow> (string \<times> string) list option" where
  "match_path [] [] = Some []"
| "match_path (Lit l # ps) (x # xs) = (if l = x then match_path ps xs else None)"
| "match_path (Param k # ps) (x # xs) =
     (if x \<noteq> [] then map_option (\<lambda>rest. (k, x) # rest) (match_path ps xs) else None)"
| "match_path _ _ = None"

fun dispatch ::
  "route list \<Rightarrow> http_method \<Rightarrow> string list \<Rightarrow> (handler_id \<times> (string \<times> string) list) option" where
  "dispatch [] m path = None"
| "dispatch ((m', pat, h) # rs) m path =
     (if m' = m
      then (case match_path pat path of
              Some params \<Rightarrow> Some (h, params)
            | None \<Rightarrow> dispatch rs m path)
      else dispatch rs m path)"

text \<open>
  A GET request below the entity's prefix: its path and its query string, one value for
  each key. The result is \<open>None\<close> when no route matches.
\<close>

record request =
  r_path :: "string list"
  r_query :: "string \<rightharpoonup> string"

record validations =
  querySchema :: "list_query \<Rightarrow> issue list + list_query"
  searchQuerySchema :: "search_query \<Rightarrow> issue list + valid_search_query"
  processQueryParams :: "list_query \<Rightarrow> processed"

definition likes_validations :: validations where
  "likes_validations =
     \<lparr>querySchema = likesQuerySchema, searchQuerySchema = likesSearchQuerySchema,
      processQueryParams = processLikesQueryParams\<rparr>"

definition followers_validations :: validations where
  "followers_validations =
     \<lparr>querySchema = followersQuerySchema, searchQuerySchema = followersSearchQuerySchema,
      processQueryParams = processFollowersQueryParams\<rparr>"

definition serve_get ::
  "validations \<Rightarrow> entity \<Rightarrow> 'r storage \<Rightarrow> request \<Rightarrow> ('r response \<times> call list) option" where
  "serve_get vs e st req =
     (case dispatch (routes e) GET (r_path req) of
        Some (ListH, params) \<Rightarrow>
          Some (list_route (querySchema vs) (processQueryParams vs) e st
                  \<lparr>q_page = r_query req ''page'', q_limit = r_query req ''limit'',
                   q_name = r_query req ''name'', q_description = r_query req ''description''\<rparr>)
      | Some (GetByIdH, params) \<Rightarrow>
          (case map_of params ''id'' of
             Some ident \<Rightarrow> Some (get_by_id_route e st ident)
           | None \<Rightarrow> None)
      | Some (SearchH, params) \<Rightarrow>
          Some (search_route (searchQuerySchema vs) e st
                  \<lparr>sq_query = r_query req ''query'', sq_page = r_query req ''page'',
                   sq_limit = r_query req ''limit''\<rparr>)
      | _ \<Rightarrow> None)"

section \<open>The processor on doubles\<close>

text \<open>
  The processor once more, with the numbers as the doubles they are, for the statements
  that range over every input. A double that occurs here is \<^verbatim>\<open>NaN\<close>, an infinity
  (\<open>DInf True\<close> is \<^verbatim>\<open>+Infinity\<close>) or finite with an integer value: \<^verbatim>\<open>parseInt\<close>
  yields integers, and differences and products of integer-valued doubles are
  integer-valued.

  \<open>round_double n\<close> is the double nearest to the integer \<open>n\<close>, ties to the even
  significand of 53 bits; from \<open>2^1024 - 2^970\<close> on, the rounded value \<open>2^1024\<close> is out
  of range and the result is infinite. \<^verbatim>\<open>parseInt\<close> rounds the integer it reads in this
  way, and \<^verbatim>\<open>-\<close> and \<^verbatim>\<open>*\<close> round the exact difference and product.
  (ECMAScript lets an engine approximate the digits after the 20th significant one in
  \<^verbatim>\<open>parseInt\<close>. The statement for every input relies on two facts about the rounding
  only: it is exact up to \<open>2^53 - 1\<close>, and it takes an integer that is not negative to
  \<^verbatim>\<open>+Infinity\<close> or to an integer that is not negative.)
\<close>

datatype jsdouble = DNaN | DInf bool | DFin int

definition OVERFLOW_BOUND :: int where
  "OVERFLOW_BOUND = 2 ^ 1024"

definition round_double :: "int \<Rightarrow> jsdouble" where
  "round_double n =
     (let a = \<bar>n\<bar>
      in if a \<le> MAX_SAFE_INTEGER then DFin n
         else
           (let e = nat (bitlen a - 53);
                q = a div 2 ^ e;
                r = a mod 2 ^ e;
                q' = (if 2 ^ e < 2 * r \<or> (2 * r = 2 ^ e \<and> odd q) then q + 1 else q);
                m = q' * 2 ^ e
            in if OVERFLOW_BOUND \<le> m then DInf (0 < n) else DFin (sgn n * m)))"

definition parseInt_double :: "string \<Rightarrow> jsdouble" where
  "parseInt_double s = (case parseInt s of NaN \<Rightarrow> DNaN | Num n \<Rightarrow> round_double n)"

definition dsub :: "jsdouble \<Rightarrow> jsdouble \<Rightarrow> jsdouble" where
  "dsub x y =
     (case (x, y) of
        (DFin a, DFin b) \<Rightarrow> round_double (a - b)
      | (DFin a, DInf s) \<Rightarrow> DInf (\<not> s)
      | (DInf s, DFin b) \<Rightarrow> DInf s
      | (DInf s, DInf t) \<Rightarrow> if s = t then DNaN else DInf s
      | _ \<Rightarrow> DNaN)"

definition dmul :: "jsdouble \<Rightarrow> jsdouble \<Rightarrow> jsdouble" where
  "dmul x y =
     (case (x, y) of
        (DFin a, DFin b) \<Rightarrow> round_double (a * b)
      | (DFin a, DInf s) \<Rightarrow> if a = 0 then DNaN else DInf (s = (0 < a))
      | (DInf s, DFin b) \<Rightarrow> if b = 0 then DNaN else DInf (s = (0 < b))
      | (DInf s, DInf t) \<Rightarrow> DInf (s = t)
      | _ \<Rightarrow> DNaN)"

text \<open>
  Truthiness together with \<^verbatim>\<open>> 0\<close>, and \<^verbatim>\<open><= k\<close>, on doubles.
\<close>

definition d_positive :: "jsdouble \<Rightarrow> bool" where
  "d_positive x = (case x of DNaN \<Rightarrow> False | DInf s \<Rightarrow> s | DFin a \<Rightarrow> a \<noteq> 0 \<and> 0 < a)"

definition d_le :: "jsdouble \<Rightarrow> int \<Rightarrow> bool" where
  "d_le x k = (case x of DNaN \<Rightarrow> False | DInf s \<Rightarrow> \<not> s | DFin a \<Rightarrow> a \<le> k)"

definition parse_param_double :: "string option \<Rightarrow> jsdouble option" where
  "parse_param_double v =
     (case v of None \<Rightarrow> None | Some s \<Rightarrow> if s \<noteq> [] then Some (parseInt_double s) else None)"

definition derive_take_double :: "jsdouble option \<Rightarrow> jsdouble" where
  "derive_take_double limit =
     (case limit of
        Some l \<Rightarrow> if d_positive l \<and> d_le l 100 then l else DFin 10
      | None \<Rightarrow> DFin 10)"

definition derive_skip_double :: "jsdouble option \<Rightarrow> jsdouble \<Rightarrow> jsdouble" where
  "derive_skip_double page tk =
     (case page of
        Some p \<Rightarrow> if d_positive p then dmul (dsub p (DFin 1)) tk else DFin 0
      | None \<Rightarrow> DFin 0)"

text \<open>
  \<^verbatim>\<open>z.number().int().min(lo).max(hi).optional()\<close> on doubles: \<^verbatim>\<open>NaN\<close> is not a
  number for zod, an infinity is a number that is not an integer, and the bounds are
  checked as well. The object checked has the fields of \<open>internal_params\<close>.
\<close>

record internal_params_double =
  id_skip :: "jsdouble option"
  id_take :: "jsdouble option"
  id_page :: "jsdouble option"
  id_limit :: "jsdouble option"
  id_name :: "string option"
  id_description :: "string option"

definition check_number_double ::
  "string \<Rightarrow> int \<Rightarrow> int option \<Rightarrow> jsdouble option \<Rightarrow> issue list" where
  "check_number_double path lo hi v =
     (case v of
        None \<Rightarrow> []
      | Some DNaN \<Rightarrow> [(path, invalid_type)]
      | Some (DInf s) \<Rightarrow>
          (path, invalid_type)
          # (if s then (case hi of None \<Rightarrow> [] | Some h \<Rightarrow> [(path, too_big)])
             else [(path, too_small)])
      | Some (DFin n) \<Rightarrow>
          (if n < lo then [(path, too_small)] else [])
          @ (case hi of None \<Rightarrow> [] | Some h \<Rightarrow> if h < n then [(path, too_big)] else []))"

definition internalQueryParamsSchema_double ::
  "internal_params_double \<Rightarrow> issue list + internal_params_double" where
  "internalQueryParamsSchema_double p =
     parse_result
       (check_number_double ''skip'' 0 None (id_skip p)
        @ check_number_double ''take'' 1 (Some 100) (id_take p)
        @ check_number_double ''page'' 1 None (id_page p)
        @ check_number_double ''limit'' 1 (Some 100) (id_limit p)) p"

record processed_double =
  pd_where :: where_obj
  pd_skip :: jsdouble
  pd_take :: jsdouble

definition internal_input_double :: "list_query \<Rightarrow> internal_params_double" where
  "internal_input_double q =
     (let page = parse_param_double (q_page q);
          limit = parse_param_double (q_limit q);
          tk = derive_take_double limit;
          sk = derive_skip_double page tk
      in \<lparr>id_skip = Some sk, id_take = Some tk, id_page = page, id_limit = limit,
          id_name = q_name q, id_description = q_description q\<rparr>)"

definition processLikesQueryParams_double :: "list_query \<Rightarrow> processed_double" where
  "processLikesQueryParams_double q =
     (let page = parse_param_double (q_page q);
          limit = parse_param_double (q_limit q);
          tk = derive_take_double limit;
          sk = derive_skip_double page tk
      in case internalQueryParamsSchema_double
                \<lparr>id_skip = Some sk, id_take = Some tk, id_page = page,
                 id_limit = limit, id_name = q_name q, id_description = q_description q\<rparr> of
           Inl err \<Rightarrow> \<lparr>pd_where = Map.empty, pd_skip = DFin 0, pd_take = DFin 10\<rparr>
         | Inr data \<Rightarrow>
             \<lparr>pd_where =
                add_contains ''description'' (id_description data)
                  (add_contains ''name'' (id_name data) Map.empty),
              pd_skip = sk, pd_take = tk\<rparr>)"

definition processFollowersQueryParams_double :: "list_query \<Rightarrow> processed_double" where
  "processFollowersQueryParams_double q =
     (let page = parse_param_double (q_page q);
          limit = parse_param_double (q_limit q);
          tk = derive_take_double limit;
          sk = derive_skip_double page tk
      in case internalQueryParamsSchema_double
                \<lparr>id_skip = Some sk, id_take = Some tk, id_page = page,
                 id_limit = limit, id_name = q_name q, id_description = q_description q\<rparr> of
           Inl err \<Rightarrow> \<lparr>pd_where = Map.empty, pd_skip = DFin 0, pd_take = DFin 10\<rparr>
         | Inr data \<Rightarrow>
             \<lparr>pd_where =
                add_contains ''description'' (id_description data)
                  (add_contains ''name'' (id_name data) Map.empty),
              pd_skip = sk, pd_take = tk\<rparr>)"

section \<open>Notions used in the statements\<close>

text \<open>
  The values of \<^verbatim>\<open>page\<close> and \<^verbatim>\<open>limit\<close> that the internal schema accepts, and the
  result of the processor's failure branch.
\<close>

definition accepted_page :: "jsnum option \<Rightarrow> bool" where
  "accepted_page v = (case v of None \<Rightarrow> True | Some NaN \<Rightarrow> False | Some (Num p) \<Rightarrow> 1 \<le> p)"

definition accepted_limit :: "jsnum option \<Rightarrow> bool" where
  "accepted_limit v =
     (case v of None \<Rightarrow> True | Some NaN \<Rightarrow> False | Some (Num l) \<Rightarrow> 1 \<le> l \<and> l \<le> 100)"

definition default_result :: processed where
  "default_result = \<lparr>p_where = Map.empty, p_skip = 0, p_take = 10\<rparr>"

definition default_result_double :: processed_double where
  "default_result_double = \<lparr>pd_where = Map.empty, pd_skip = DFin 0, pd_take = DFin 10\<rparr>"

definition accepted_page_double :: "jsdouble option \<Rightarrow> bool" where
  "accepted_page_double v = (case v of None \<Rightarrow> True | Some (DFin p) \<Rightarrow> 1 \<le> p | _ \<Rightarrow> False)"

definition accepted_limit_double :: "jsdouble option \<Rightarrow> bool" where
  "accepted_limit_double v =
     (case v of None \<Rightarrow> True | Some (DFin l) \<Rightarrow> 1 \<le> l \<and> l \<le> 100 | _ \<Rightarrow> False)"

definition finite_double :: "jsdouble \<Rightarrow> bool" where
  "finite_double x = (case x of DFin a \<Rightarrow> True | _ \<Rightarrow> False)"

definition to_double :: "jsnum \<Rightarrow> jsdouble" where
  "to_double x = (case x of NaN \<Rightarrow> DNaN | Num n \<Rightarrow> DFin n)"

text \<open>
  Two storages for the examples: one that holds \<open>n\<close> rows it does not return and finds no
  row by id, and one whose every call rejects.
\<close>

definition sample_storage :: "nat \<Rightarrow> string storage" where
  "sample_storage n =
     \<lparr>st_findMany = (\<lambda>w s t. Returns []), st_count = (\<lambda>w. Returns n),
      st_findUnique = (\<lambda>i. Returns None)\<rparr>"

definition failing_storage :: "string storage" where
  "failing_storage =
     \<lparr>st_findMany = (\<lambda>w s t. Throws (ErrorObj ''connection lost'')),
      st_count = (\<lambda>w. Throws (ErrorObj ''connection lost'')),
      st_findUnique = (\<lambda>i. Throws (ErrorObj ''connection lost''))\<rparr>"

section \<open>Parsing\<close>

lemma digit_not_space: "is_digit c \<Longrightarrow> \<not> is_js_space c"
  by (auto simp: is_digit_def is_js_space_def)

lemma digit_not_sign: "is_digit c \<Longrightarrow> c \<noteq> CHR ''-'' \<and> c \<noteq> CHR ''+''"
  by (auto simp: is_digit_def)

lemma parseInt_digit_string: "digit_string s \<Longrightarrow> parseInt s = Num (digits_value s)"
proof -
  assume d: "digit_string s"
  then obtain c r where s: "s = c # r" and c: "is_digit c" and r: "list_all is_digit r"
    by (cases s) (auto simp: digit_string_def)
  have tw: "takeWhile is_digit s = s"
    using d by (simp add: digit_string_def list_all_iff)
  show ?thesis
    using digit_not_space[OF c] digit_not_sign[OF c] tw
    by (simp add: parseInt_def s Let_def)
qed

lemma digits_value_foldl_nonneg:
  "list_all is_digit ds \<Longrightarrow> 0 \<le> a \<Longrightarrow> 0 \<le> foldl (\<lambda>acc c. 10 * acc + digit_val c) a ds"
  by (induction ds arbitrary: a) (auto simp: is_digit_def digit_val_def)

lemma digits_value_nonneg: "digit_string s \<Longrightarrow> 0 \<le> digits_value s"
  by (simp add: digits_value_def digit_string_def digits_value_foldl_nonneg)

section \<open>The query-parameter processor\<close>

lemma derive_take_range: "1 \<le> derive_take v \<and> derive_take v \<le> 100"
  by (simp add: derive_take_def split: option.split jsnum.split)

lemma derive_skip_nonneg: "0 \<le> tk \<Longrightarrow> 0 \<le> derive_skip v tk"
  by (simp add: derive_skip_def split: option.split jsnum.split)

lemma check_page_iff: "check_number ''page'' 1 None v = [] \<longleftrightarrow> accepted_page v"
  by (simp add: check_number_def accepted_page_def split: option.split jsnum.split)

lemma check_limit_iff: "check_number ''limit'' 1 (Some 100) v = [] \<longleftrightarrow> accepted_limit v"
  by (simp add: check_number_def accepted_limit_def split: option.split jsnum.split)

lemma check_take_ok: "check_number ''take'' 1 (Some 100) (Some (Num (derive_take v))) = []"
  using derive_take_range[of v] by (simp add: check_number_def)

lemma check_skip_ok: "check_number ''skip'' 0 None (Some (Num (derive_skip v (derive_take w)))) = []"
proof -
  have "0 \<le> derive_take w" using derive_take_range[of w] by linarith
  then have "0 \<le> derive_skip v (derive_take w)" by (rule derive_skip_nonneg)
  then show ?thesis by (simp add: check_number_def)
qed

lemma revalidation:
  "internalQueryParamsSchema (internal_input q) =
     (if accepted_page (parse_param (q_page q)) \<and> accepted_limit (parse_param (q_limit q))
      then Inr (internal_input q)
      else Inl (check_number ''page'' 1 None (parse_param (q_page q))
                @ check_number ''limit'' 1 (Some 100) (parse_param (q_limit q))))"
  by (simp add: internalQueryParamsSchema_def internal_input_def Let_def parse_result_def
      check_take_ok check_skip_ok check_page_iff check_limit_iff)

lemma processLikes_internal:
  "processLikesQueryParams q =
     (case internalQueryParamsSchema (internal_input q) of
        Inl err \<Rightarrow> default_result
      | Inr data \<Rightarrow>
          \<lparr>p_where = add_contains ''description'' (q_description q)
                      (add_contains ''name'' (q_name q) Map.empty),
           p_skip = derive_skip (parse_param (q_page q)) (derive_take (parse_param (q_limit q))),
           p_take = derive_take (parse_param (q_limit q))\<rparr>)"
  by (simp add: processLikesQueryParams_def internal_input_def Let_def default_result_def
      internalQueryParamsSchema_def parse_result_def split: sum.split)

lemma processLikes_cases:
  "processLikesQueryParams q =
     (if accepted_page (parse_param (q_page q)) \<and> accepted_limit (parse_param (q_limit q))
      then \<lparr>p_where = add_contains ''description'' (q_description q)
                        (add_contains ''name'' (q_name q) Map.empty),
            p_skip = derive_skip (parse_param (q_page q)) (derive_take (parse_param (q_limit q))),
            p_take = derive_take (parse_param (q_limit q))\<rparr>
      else default_result)"
  by (simp add: processLikes_internal revalidation)

lemma processFollowers_eq: "processFollowersQueryParams = processLikesQueryParams"
  by (rule ext) (simp add: processFollowersQueryParams_def processLikesQueryParams_def)

lemma proc_cases:
  assumes "proc = processLikesQueryParams \<or> proc = processFollowersQueryParams"
  shows "proc q =
     (if accepted_page (parse_param (q_page q)) \<and> accepted_limit (parse_param (q_limit q))
      then \<lparr>p_where = add_contains ''description'' (q_description q)
                        (add_contains ''name'' (q_name q) Map.empty),
            p_skip = derive_skip (parse_param (q_page q)) (derive_take (parse_param (q_limit q))),
            p_take = derive_take (parse_param (q_limit q))\<rparr>
      else default_result)"
  using assms processLikes_cases[of q] by (auto simp: processFollowers_eq)

lemma returned_take:
  "(if accepted_page pg \<and> accepted_limit lm then derive_take lm else 10) =
     (case lm of
        Some (Num l) \<Rightarrow> if 1 \<le> l \<and> l \<le> 100 \<and> accepted_page pg then l else 10
      | _ \<Rightarrow> 10)"
  by (simp add: derive_take_def accepted_limit_def split: option.split jsnum.split)

lemma returned_skip:
  "(if accepted_page pg \<and> accepted_limit lm then derive_skip pg tk else 0) =
     (case pg of
        Some (Num p) \<Rightarrow> if 0 < p \<and> accepted_limit lm then (p - 1) * tk else 0
      | _ \<Rightarrow> 0)"
  by (simp add: derive_skip_def accepted_page_def split: option.split jsnum.split)

lemma proc_take:
  assumes "proc = processLikesQueryParams \<or> proc = processFollowersQueryParams"
  shows "p_take (proc q) =
     (if accepted_page (parse_param (q_page q)) \<and> accepted_limit (parse_param (q_limit q))
      then derive_take (parse_param (q_limit q)) else 10)"
  by (simp add: proc_cases[OF assms] default_result_def)

lemma proc_skip:
  assumes "proc = processLikesQueryParams \<or> proc = processFollowersQueryParams"
  shows "p_skip (proc q) =
     (if accepted_page (parse_param (q_page q)) \<and> accepted_limit (parse_param (q_limit q))
      then derive_skip (parse_param (q_page q)) (p_take (proc q)) else 0)"
  by (simp add: proc_cases[OF assms] default_result_def)

lemma proc_take_range:
  assumes "proc = processLikesQueryParams \<or> proc = processFollowersQueryParams"
  shows "1 \<le> p_take (proc q) \<and> p_take (proc q) \<le> 100"
  using derive_take_range[of "parse_param (q_limit q)"] by (simp add: proc_take[OF assms])

lemma proc_skip_nonneg:
  assumes "proc = processLikesQueryParams \<or> proc = processFollowersQueryParams"
  shows "0 \<le> p_skip (proc q)"
proof -
  have "0 \<le> p_take (proc q)" using proc_take_range[OF assms, of q] by linarith
  then have "0 \<le> derive_skip (parse_param (q_page q)) (p_take (proc q))"
    by (rule derive_skip_nonneg)
  then show ?thesis by (simp add: proc_skip[OF assms])
qed

text \<open>
  C1, as stated: the returned \<^verbatim>\<open>take\<close> is the parsed limit whenever that is an integer
  in [1,100], and the returned \<^verbatim>\<open>skip\<close> is \<open>(page - 1) * take\<close> whenever the parsed
  page is positive. Both fail where the re-validation rejects the other parameter: with
  page 0 and limit 50 the processor returns \<^verbatim>\<open>take\<close> 10, and with page 3 and limit 500
  it returns \<^verbatim>\<open>skip\<close> 0.
\<close>

theorem C1_counterexample:
  "parse_param (Some ''50'') = Some (Num 50)
   \<and> p_take (processLikesQueryParams
        \<lparr>q_page = Some ''0'', q_limit = Some ''50'', q_name = None, q_description = None\<rparr>) \<noteq> 50
   \<and> parse_param (Some ''3'') = Some (Num 3)
   \<and> p_take (processLikesQueryParams
        \<lparr>q_page = Some ''3'', q_limit = Some ''500'', q_name = None, q_description = None\<rparr>) = 10
   \<and> p_skip (processLikesQueryParams
        \<lparr>q_page = Some ''3'', q_limit = Some ''500'', q_name = None, q_description = None\<rparr>)
       \<noteq> (3 - 1) * 10"
  by code_simp

text \<open>
  C1, amended: the returned \<^verbatim>\<open>take\<close> is the parsed limit when that is an integer in
  [1,100] and the parsed page is absent or at least 1, and 10 otherwise; the returned
  \<^verbatim>\<open>skip\<close> is \<open>(page - 1) * take\<close> when the parsed page is a positive integer and the
  parsed limit is absent or in [1,100], and 0 otherwise. In every case \<^verbatim>\<open>take\<close> is in
  [1,100] and \<^verbatim>\<open>skip\<close> is not negative.
\<close>

theorem C1_processor_pagination:
  assumes "proc = processLikesQueryParams \<or> proc = processFollowersQueryParams"
    and "exact_param (q_page q)" and "exact_param (q_limit q)"
  shows "p_take (proc q) =
           (case parse_param (q_limit q) of
              Some (Num l) \<Rightarrow>
                if 1 \<le> l \<and> l \<le> 100 \<and> accepted_page (parse_param (q_page q)) then l else 10
            | _ \<Rightarrow> 10)
         \<and> p_skip (proc q) =
           (case parse_param (q_page q) of
              Some (Num p) \<Rightarrow>
                if 0 < p \<and> accepted_limit (parse_param (q_limit q))
                then (p - 1) * p_take (proc q) else 0
            | _ \<Rightarrow> 0)
         \<and> 1 \<le> p_take (proc q) \<and> p_take (proc q) \<le> 100 \<and> 0 \<le> p_skip (proc q)"
proof (intro conjI)
  show "p_take (proc q) =
           (case parse_param (q_limit q) of
              Some (Num l) \<Rightarrow>
                if 1 \<le> l \<and> l \<le> 100 \<and> accepted_page (parse_param (q_page q)) then l else 10
            | _ \<Rightarrow> 10)"
    unfolding proc_take[OF assms(1)] by (rule returned_take)
  show "p_skip (proc q) =
           (case parse_param (q_page q) of
              Some (Num p) \<Rightarrow>
                if 0 < p \<and> accepted_limit (parse_param (q_limit q))
                then (p - 1) * p_take (proc q) else 0
            | _ \<Rightarrow> 0)"
    by (subst proc_skip[OF assms(1)]) (rule returned_skip)
  show "1 \<le> p_take (proc q)" "p_take (proc q) \<le> 100"
    using proc_take_range[OF assms(1), of q] by simp_all
  show "0 \<le> p_skip (proc q)" by (rule proc_skip_nonneg[OF assms(1)])
qed

theorem C1_processor_pagination_witness:
  "exact_param (Some ''3'') \<and> exact_param (Some ''50'')
   \<and> p_take (processLikesQueryParams
        \<lparr>q_page = Some ''3'', q_limit = Some ''50'', q_name = None, q_description = None\<rparr>) = 50
   \<and> p_skip (processLikesQueryParams
        \<lparr>q_page = Some ''3'', q_limit = Some ''50'', q_name = None, q_description = None\<rparr>) = 100"
proof -
  have e: "exact_param (Some ''3'')" "exact_param (Some ''50'')"
    by (simp_all add: exact_param_def parse_param_def parseInt_def is_js_space_def is_digit_def
        digits_value_def digit_val_def MAX_SAFE_INTEGER_def)
  have p: "parse_param (Some ''3'') = Some (Num 3)" "parse_param (Some ''50'') = Some (Num 50)"
    by (simp_all add: parse_param_def parseInt_def is_js_space_def is_digit_def
        digits_value_def digit_val_def)
  show ?thesis
    using C1_processor_pagination[of processLikesQueryParams
        "\<lparr>q_page = Some ''3'', q_limit = Some ''50'', q_name = None, q_description = None\<rparr>"] e
    by (simp add: p accepted_page_def accepted_limit_def)
qed

section \<open>The processor on doubles: every input\<close>

lemma round_double_nonneg:
  assumes "0 \<le> n"
  shows "round_double n = DInf True \<or> (\<exists>m. round_double n = DFin m \<and> 0 \<le> m)"
proof (cases "\<bar>n\<bar> \<le> MAX_SAFE_INTEGER")
  case True
  then show ?thesis using assms by (simp add: round_double_def)
next
  case False
  then have pos: "0 < n" using assms by (auto simp: MAX_SAFE_INTEGER_def)
  define e where "e = nat (bitlen \<bar>n\<bar> - 53)"
  define q where "q = \<bar>n\<bar> div 2 ^ e"
  define q' where "q' = (if 2 ^ e < 2 * (\<bar>n\<bar> mod 2 ^ e) \<or> (2 * (\<bar>n\<bar> mod 2 ^ e) = 2 ^ e \<and> odd q)
                         then q + 1 else q)"
  have "0 \<le> q" by (simp add: q_def pos_imp_zdiv_nonneg_iff)
  then have "0 \<le> q'" by (simp add: q'_def)
  then have m: "0 \<le> q' * 2 ^ e" by simp
  have r: "round_double n =
      (if OVERFLOW_BOUND \<le> q' * 2 ^ e then DInf (0 < n) else DFin (sgn n * (q' * 2 ^ e)))"
    using False unfolding round_double_def Let_def e_def q_def q'_def by (simp only: if_False)
  show ?thesis using m pos by (simp add: r)
qed

lemma round_double_exact: "\<bar>n\<bar> \<le> MAX_SAFE_INTEGER \<Longrightarrow> round_double n = DFin n"
  by (simp add: round_double_def)

lemma derive_take_double_range:
  "\<exists>t. derive_take_double v = DFin t \<and> 1 \<le> t \<and> t \<le> 100"
  by (auto simp: derive_take_double_def d_positive_def d_le_def split: option.split jsdouble.split)

lemma dsub_one:
  "d_positive p \<Longrightarrow> dsub p (DFin 1) = DInf True \<or> (\<exists>a. dsub p (DFin 1) = DFin a \<and> 0 \<le> a)"
proof (cases p)
  case (DFin a)
  assume "d_positive p"
  then have "0 \<le> a - 1" using DFin by (simp add: d_positive_def)
  then show ?thesis using round_double_nonneg[of "a - 1"] DFin by (simp add: dsub_def)
qed (simp_all add: d_positive_def dsub_def)

lemma dmul_nonneg:
  assumes "x = DInf True \<or> (\<exists>a. x = DFin a \<and> 0 \<le> a)" and "1 \<le> t"
  shows "dmul x (DFin t) = DInf True \<or> (\<exists>b. dmul x (DFin t) = DFin b \<and> 0 \<le> b)"
  using assms(1)
proof
  assume "x = DInf True"
  then show ?thesis using assms(2) by (simp add: dmul_def)
next
  assume "\<exists>a. x = DFin a \<and> 0 \<le> a"
  then obtain a where a: "x = DFin a" "0 \<le> a" by blast
  then have "0 \<le> a * t" using assms(2) by simp
  then show ?thesis using round_double_nonneg[of "a * t"] a by (simp add: dmul_def)
qed

lemma derive_skip_double_range:
  assumes "1 \<le> t"
  shows "derive_skip_double v (DFin t) = DInf True
         \<or> (\<exists>s. derive_skip_double v (DFin t) = DFin s \<and> 0 \<le> s)"
proof (cases v)
  case None
  then show ?thesis by (simp add: derive_skip_double_def)
next
  case (Some p)
  show ?thesis
  proof (cases "d_positive p")
    case True
    then show ?thesis
      using dmul_nonneg[OF dsub_one[OF True] assms] Some by (simp add: derive_skip_double_def)
  next
    case False
    then show ?thesis using Some by (simp add: derive_skip_double_def)
  qed
qed

lemma check_page_double_iff:
  "check_number_double ''page'' 1 None v = [] \<longleftrightarrow> accepted_page_double v"
  by (simp add: check_number_double_def accepted_page_double_def
      split: option.split jsdouble.split)

lemma check_limit_double_iff:
  "check_number_double ''limit'' 1 (Some 100) v = [] \<longleftrightarrow> accepted_limit_double v"
  by (simp add: check_number_double_def accepted_limit_double_def
      split: option.split jsdouble.split)

lemma check_take_double_ok:
  "check_number_double ''take'' 1 (Some 100) (Some (derive_take_double v)) = []"
proof -
  obtain t where "derive_take_double v = DFin t" "1 \<le> t" "t \<le> 100"
    using derive_take_double_range[of v] by blast
  then show ?thesis by (simp add: check_number_double_def)
qed

lemma check_skip_double_iff:
  "check_number_double ''skip'' 0 None (Some (derive_skip_double v (derive_take_double w))) = []
     \<longleftrightarrow> finite_double (derive_skip_double v (derive_take_double w))"
proof -
  obtain t where t: "derive_take_double w = DFin t" "1 \<le> t"
    using derive_take_double_range[of w] by blast
  show ?thesis
    using derive_skip_double_range[OF t(2), of v]
    by (auto simp: t(1) check_number_double_def finite_double_def)
qed

lemma revalidation_double:
  "internalQueryParamsSchema_double (internal_input_double q) =
     (if accepted_page_double (parse_param_double (q_page q))
         \<and> accepted_limit_double (parse_param_double (q_limit q))
         \<and> finite_double (derive_skip_double (parse_param_double (q_page q))
                            (derive_take_double (parse_param_double (q_limit q))))
      then Inr (internal_input_double q)
      else Inl (check_number_double ''skip'' 0 None (id_skip (internal_input_double q))
                @ check_number_double ''page'' 1 None (parse_param_double (q_page q))
                @ check_number_double ''limit'' 1 (Some 100) (parse_param_double (q_limit q))))"
  by (auto simp add: internalQueryParamsSchema_double_def internal_input_double_def Let_def
      parse_result_def check_take_double_ok check_skip_double_iff check_page_double_iff
      check_limit_double_iff)

lemma processLikes_double_internal:
  "processLikesQueryParams_double q =
     (case internalQueryParamsSchema_double (internal_input_double q) of
        Inl err \<Rightarrow> default_result_double
      | Inr data \<Rightarrow>
          \<lparr>pd_where = add_contains ''description'' (q_description q)
                       (add_contains ''name'' (q_name q) Map.empty),
           pd_skip = derive_skip_double (parse_param_double (q_page q))
                       (derive_take_double (parse_param_double (q_limit q))),
           pd_take = derive_take_double (parse_param_double (q_limit q))\<rparr>)"
  by (simp add: processLikesQueryParams_double_def internal_input_double_def Let_def
      default_result_double_def internalQueryParamsSchema_double_def parse_result_def
      split: sum.split)

lemma processFollowers_double_eq:
  "processFollowersQueryParams_double = processLikesQueryParams_double"
  by (rule ext)
     (simp add: processFollowersQueryParams_double_def processLikesQueryParams_double_def)

lemma proc_double_cases:
  assumes "proc = processLikesQueryParams_double \<or> proc = processFollowersQueryParams_double"
  shows "proc q =
     (if accepted_page_double (parse_param_double (q_page q))
         \<and> accepted_limit_double (parse_param_double (q_limit q))
         \<and> finite_double (derive_skip_double (parse_param_double (q_page q))
                            (derive_take_double (parse_param_double (q_limit q))))
      then \<lparr>pd_where = add_contains ''description'' (q_description q)
                         (add_contains ''name'' (q_name q) Map.empty),
            pd_skip = derive_skip_double (parse_param_double (q_page q))
                        (derive_take_double (parse_param_double (q_limit q))),
            pd_take = derive_take_double (parse_param_double (q_limit q))\<rparr>
      else default_result_double)"
proof -
  have "proc q = processLikesQueryParams_double q"
    using assms by (auto simp: processFollowers_double_eq)
  then show ?thesis by (simp add: processLikes_double_internal revalidation_double)
qed

lemma proc_double_take:
  assumes "proc = processLikesQueryParams_double \<or> proc = processFollowersQueryParams_double"
  shows "\<exists>t. pd_take (proc q) = DFin t \<and> 1 \<le> t \<and> t \<le> 100"
  using derive_take_double_range[of "parse_param_double (q_limit q)"]
  by (simp add: proc_double_cases[OF assms] default_result_double_def)

lemma proc_double_skip:
  assumes "proc = processLikesQueryParams_double \<or> proc = processFollowersQueryParams_double"
  shows "\<exists>s. pd_skip (proc q) = DFin s \<and> 0 \<le> s"
proof -
  let ?lm = "parse_param_double (q_limit q)" and ?pg = "parse_param_double (q_page q)"
  obtain t where t: "derive_take_double ?lm = DFin t" "1 \<le> t"
    using derive_take_double_range[of ?lm] by blast
  have "finite_double (derive_skip_double ?pg (derive_take_double ?lm))
        \<Longrightarrow> \<exists>s. derive_skip_double ?pg (derive_take_double ?lm) = DFin s \<and> 0 \<le> s"
    using derive_skip_double_range[OF t(2), of ?pg]
    by (auto simp: t(1) finite_double_def)
  then show ?thesis
    by (auto simp: proc_double_cases[OF assms] default_result_double_def)
qed

lemma proc_double_rejected:
  assumes "proc = processLikesQueryParams_double \<or> proc = processFollowersQueryParams_double"
    and "\<not> accepted_page_double (parse_param_double (q_page q))
         \<or> \<not> accepted_limit_double (parse_param_double (q_limit q))
         \<or> \<not> finite_double (derive_skip_double (parse_param_double (q_page q))
                               (derive_take_double (parse_param_double (q_limit q))))"
  shows "proc q = default_result_double"
  using assms(2) by (auto simp: proc_double_cases[OF assms(1)])

text \<open>
  C2: the processor is total. Its body has no statement that throws: \<^verbatim>\<open>parseInt\<close>
  returns a number for every string, \<^verbatim>\<open>safeParse\<close> returns its issues as a value, and
  the failure branch turns them into the defaults; so the processor is a function from the
  query to the result, whose \<^verbatim>\<open>skip\<close> and \<^verbatim>\<open>take\<close> are doubles. For every input,
  malformed or not and of any size, the returned \<^verbatim>\<open>take\<close> is a finite integer in
  [1,100] and the returned \<^verbatim>\<open>skip\<close> a finite integer that is not negative; and whenever
  the re-validation of the derived parameters fails, as it does for a parsed limit above
  100 and for a parsed page of 0, the result is exactly
  \<^verbatim>\<open>{where: {}, skip: 0, take: 10}\<close>. The witness has a limit of 101, and a page of 309
  digits whose \<^verbatim>\<open>skip\<close> overflows to \<^verbatim>\<open>Infinity\<close>.
\<close>

theorem C2_processor_total:
  assumes "proc = processLikesQueryParams_double \<or> proc = processFollowersQueryParams_double"
  shows "(\<exists>t. pd_take (proc q) = DFin t \<and> 1 \<le> t \<and> t \<le> 100)
         \<and> (\<exists>s. pd_skip (proc q) = DFin s \<and> 0 \<le> s)
         \<and> (\<forall>issues. internalQueryParamsSchema_double (internal_input_double q) = Inl issues
               \<longrightarrow> proc q = \<lparr>pd_where = Map.empty, pd_skip = DFin 0, pd_take = DFin 10\<rparr>)
         \<and> (\<forall>l. parse_param_double (q_limit q) = Some (DFin l) \<and> 100 < l
               \<longrightarrow> proc q = \<lparr>pd_where = Map.empty, pd_skip = DFin 0, pd_take = DFin 10\<rparr>)
         \<and> (parse_param_double (q_page q) = Some (DFin 0)
               \<longrightarrow> proc q = \<lparr>pd_where = Map.empty, pd_skip = DFin 0, pd_take = DFin 10\<rparr>)"
proof (intro conjI allI impI)
  show "\<exists>t. pd_take (proc q) = DFin t \<and> 1 \<le> t \<and> t \<le> 100"
    by (rule proc_double_take[OF assms])
  show "\<exists>s. pd_skip (proc q) = DFin s \<and> 0 \<le> s"
    by (rule proc_double_skip[OF assms])
next
  fix issues
  assume "internalQueryParamsSchema_double (internal_input_double q) = Inl issues"
  then have "\<not> accepted_page_double (parse_param_double (q_page q))
         \<or> \<not> accepted_limit_double (parse_param_double (q_limit q))
         \<or> \<not> finite_double (derive_skip_double (parse_param_double (q_page q))
                               (derive_take_double (parse_param_double (q_limit q))))"
    by (auto simp: revalidation_double)
  then show "proc q = \<lparr>pd_where = Map.empty, pd_skip = DFin 0, pd_take = DFin 10\<rparr>"
    using proc_double_rejected[OF assms] by (simp add: default_result_double_def)
next
  fix l
  assume "parse_param_double (q_limit q) = Some (DFin l) \<and> 100 < l"
  then have "\<not> accepted_limit_double (parse_param_double (q_limit q))"
    by (simp add: accepted_limit_double_def)
  then show "proc q = \<lparr>pd_where = Map.empty, pd_skip = DFin 0, pd_take = DFin 10\<rparr>"
    using proc_double_rejected[OF assms] by (simp add: default_result_double_def)
next
  assume "parse_param_double (q_page q) = Some (DFin 0)"
  then have "\<not> accepted_page_double (parse_param_double (q_page q))"
    by (simp add: accepted_page_double_def)
  then show "proc q = \<lparr>pd_where = Map.empty, pd_skip = DFin 0, pd_take = DFin 10\<rparr>"
    using proc_double_rejected[OF assms] by (simp add: default_result_double_def)
qed

theorem C2_processor_total_witness:
  "internalQueryParamsSchema_double
       (internal_input_double \<lparr>q_page = Some ''2'', q_limit = Some ''101'', q_name = Some ''a'',
                               q_description = None\<rparr>) = Inl [(''limit'', too_big)]
   \<and> processLikesQueryParams_double
       \<lparr>q_page = Some ''2'', q_limit = Some ''101'', q_name = Some ''a'', q_description = None\<rparr>
     = \<lparr>pd_where = Map.empty, pd_skip = DFin 0, pd_take = DFin 10\<rparr>
   \<and> internalQueryParamsSchema_double
       (internal_input_double
          \<lparr>q_page = Some (CHR ''1'' # replicate 308 (CHR ''0'')), q_limit = Some ''50'',
           q_name = Some ''a'', q_description = None\<rparr>) = Inl [(''skip'', invalid_type)]
   \<and> processLikesQueryParams_double
       \<lparr>q_page = Some (CHR ''1'' # replicate 308 (CHR ''0'')), q_limit = Some ''50'',
        q_name = Some ''a'', q_description = None\<rparr>
     = \<lparr>pd_where = Map.empty, pd_skip = DFin 0, pd_take = DFin 10\<rparr>"
proof -
  let ?q = "\<lparr>q_page = Some ''2'', q_limit = Some ''101'', q_name = Some ''a'',
             q_description = None\<rparr>"
  let ?big = "\<lparr>q_page = Some (CHR ''1'' # replicate 308 (CHR ''0'')), q_limit = Some ''50'',
               q_name = Some ''a'', q_description = None\<rparr>"
  have i: "internalQueryParamsSchema_double (internal_input_double ?q)
             = Inl [(''limit'', too_big)]"
    by code_simp
  have j: "internalQueryParamsSchema_double (internal_input_double ?big)
             = Inl [(''skip'', invalid_type)]"
    by code_simp
  show ?thesis
    using C2_processor_total[of processLikesQueryParams_double ?q, OF disjI1[OF refl]]
      C2_processor_total[of processLikesQueryParams_double ?big, OF disjI1[OF refl]] i j
    by blast
qed

text \<open>
  On exact parameters the two models of the processor give the same result.
\<close>

lemma exact_paramD:
  "exact_param v \<Longrightarrow> parse_param v = Some (Num n) \<Longrightarrow> \<bar>n\<bar> * 100 \<le> MAX_SAFE_INTEGER"
  by (simp add: exact_param_def)

lemma parse_param_double_exact:
  assumes "exact_param v"
  shows "parse_param_double v = map_option to_double (parse_param v)"
proof (cases "parse_param v")
  case None
  then show ?thesis
    by (auto simp: parse_param_double_def parse_param_def split: option.splits if_splits)
next
  case (Some x)
  then obtain s where s: "v = Some s" "s \<noteq> []" "parseInt s = x"
    by (auto simp: parse_param_def split: option.splits if_splits)
  show ?thesis
  proof (cases x)
    case NaN
    then show ?thesis
      using s by (simp add: parse_param_double_def parse_param_def parseInt_double_def to_double_def)
  next
    case (Num n)
    then have "\<bar>n\<bar> * 100 \<le> MAX_SAFE_INTEGER" using exact_paramD[OF assms] Some by simp
    then have "\<bar>n\<bar> \<le> MAX_SAFE_INTEGER" by linarith
    then have "round_double n = DFin n" by (rule round_double_exact)
    then show ?thesis
      using s Num
      by (simp add: parse_param_double_def parse_param_def parseInt_double_def to_double_def)
  qed
qed

lemma derive_take_agree: "derive_take_double (map_option to_double lm) = DFin (derive_take lm)"
  by (auto simp: derive_take_double_def derive_take_def to_double_def d_positive_def d_le_def
      split: option.split jsnum.split)

lemma derive_skip_agree:
  assumes "\<And>p. pg = Some (Num p) \<Longrightarrow> \<bar>p\<bar> * 100 \<le> MAX_SAFE_INTEGER"
    and "1 \<le> t" and "t \<le> 100"
  shows "derive_skip_double (map_option to_double pg) (DFin t) = DFin (derive_skip pg t)"
proof (cases pg)
  case None
  then show ?thesis by (simp add: derive_skip_double_def derive_skip_def)
next
  case (Some x)
  show ?thesis
  proof (cases x)
    case NaN
    then show ?thesis
      using Some by (simp add: derive_skip_double_def derive_skip_def to_double_def d_positive_def)
  next
    case (Num p)
    show ?thesis
    proof (cases "0 < p")
      case False
      then show ?thesis
        using Some Num
        by (simp add: derive_skip_double_def derive_skip_def to_double_def d_positive_def)
    next
      case True
      have b: "p * 100 \<le> MAX_SAFE_INTEGER" using assms(1)[of p] Some Num True by simp
      have "0 \<le> p - 1" "p - 1 \<le> p" using True by simp_all
      then have s1: "\<bar>p - 1\<bar> \<le> MAX_SAFE_INTEGER" using b by linarith
      have "(p - 1) * t \<le> p * 100"
        using True assms(2,3) by (intro mult_mono) simp_all
      moreover have "0 \<le> (p - 1) * t" using True assms(2) by simp
      ultimately have s2: "\<bar>(p - 1) * t\<bar> \<le> MAX_SAFE_INTEGER" using b by linarith
      show ?thesis
        using Some Num True round_double_exact[OF s1] round_double_exact[OF s2]
        by (simp add: derive_skip_double_def derive_skip_def to_double_def d_positive_def
            dsub_def dmul_def)
    qed
  qed
qed

lemma accepted_page_agree: "accepted_page_double (map_option to_double v) = accepted_page v"
  by (simp add: accepted_page_double_def accepted_page_def to_double_def
      split: option.split jsnum.split)

lemma accepted_limit_agree: "accepted_limit_double (map_option to_double v) = accepted_limit v"
  by (simp add: accepted_limit_double_def accepted_limit_def to_double_def
      split: option.split jsnum.split)

lemma models_agree:
  assumes "exact_param (q_page q)" and "exact_param (q_limit q)"
  shows "processLikesQueryParams_double q =
           \<lparr>pd_where = p_where (processLikesQueryParams q),
            pd_skip = DFin (p_skip (processLikesQueryParams q)),
            pd_take = DFin (p_take (processLikesQueryParams q))\<rparr>"
proof -
  let ?pg = "parse_param (q_page q)" and ?lm = "parse_param (q_limit q)"
  have pg: "parse_param_double (q_page q) = map_option to_double ?pg"
    by (rule parse_param_double_exact[OF assms(1)])
  have lm: "parse_param_double (q_limit q) = map_option to_double ?lm"
    by (rule parse_param_double_exact[OF assms(2)])
  have tk: "derive_take_double (map_option to_double ?lm) = DFin (derive_take ?lm)"
    by (rule derive_take_agree)
  have sk: "derive_skip_double (map_option to_double ?pg) (DFin (derive_take ?lm))
              = DFin (derive_skip ?pg (derive_take ?lm))"
    using derive_take_range[of ?lm] exact_paramD[OF assms(1)]
    by (intro derive_skip_agree) simp_all
  show ?thesis
    by (simp add: proc_double_cases[OF disjI1[OF refl]] processLikes_cases pg lm tk sk
        accepted_page_agree accepted_limit_agree finite_double_def
        default_result_double_def default_result_def)
qed

section \<open>The filters\<close>

lemma add_contains_empty: "add_contains key (Some []) w = add_contains key None w"
  by (simp add: add_contains_def)

lemma where_name:
  "add_contains ''description'' d (add_contains ''name'' n Map.empty) ''name'' =
     (case n of None \<Rightarrow> None | Some s \<Rightarrow> if s \<noteq> [] then Some (Contains s insensitive) else None)"
  by (simp add: add_contains_def split: option.split)

lemma where_description:
  "add_contains ''description'' d (add_contains ''name'' n Map.empty) ''description'' =
     (case d of None \<Rightarrow> None | Some s \<Rightarrow> if s \<noteq> [] then Some (Contains s insensitive) else None)"
  by (simp add: add_contains_def split: option.split)





text \<open>
  C10: a text filter given as the empty string is treated as absent. The returned
  \<^verbatim>\<open>where\<close> has no key for it, and the whole result is the one obtained without the
  filter.
\<close>

theorem C10_empty_filter_absent:
  assumes "proc = processLikesQueryParams \<or> proc = processFollowersQueryParams"
  shows "(q_name q = Some [] \<longrightarrow>
            p_where (proc q) ''name'' = None \<and> proc q = proc (q\<lparr>q_name := None\<rparr>))
         \<and> (q_description q = Some [] \<longrightarrow>
            p_where (proc q) ''description'' = None
            \<and> proc q = proc (q\<lparr>q_description := None\<rparr>))"
  by (simp add: proc_cases[OF assms] where_name where_description add_contains_empty
      default_result_def)

theorem C10_empty_filter_absent_witness:
  "q_name \<lparr>q_page = None, q_limit = None, q_name = Some [], q_description = Some ''x''\<rparr> = Some []
   \<and> p_where (processFollowersQueryParams
        \<lparr>q_page = None, q_limit = None, q_name = Some [], q_description = Some ''x''\<rparr>)
        ''name'' = None
   \<and> p_where (processFollowersQueryParams
        \<lparr>q_page = None, q_limit = None, q_name = Some [], q_description = Some ''x''\<rparr>)
        ''description'' = Some (Contains ''x'' insensitive)"
proof -
  let ?q = "\<lparr>q_page = None, q_limit = None, q_name = Some [], q_description = Some ''x''\<rparr>"
  have d: "p_where (processFollowersQueryParams ?q) ''description''
             = Some (Contains ''x'' insensitive)"
    by (simp add: processFollowers_eq processLikes_cases accepted_limit_def accepted_page_def
        parse_param_def add_contains_def)
  have n: "q_name ?q = Some []" by simp
  have "p_where (processFollowersQueryParams ?q) ''name'' = None"
    using C10_empty_filter_absent[of processFollowersQueryParams ?q, OF disjI2[OF refl]] n
    by blast
  then show ?thesis using d by simp
qed

lemmas eval_defs =
  parse_param_def parseInt_def is_js_space_def is_digit_def digits_value_def digit_val_def
  digit_string_def check_digits_def parse_result_def

section \<open>The list handler\<close>

lemma floor_quotient_real:
  "b \<noteq> 0 \<Longrightarrow> floor_quotient a b = Some \<lfloor>real_of_int a / real_of_int b\<rfloor>"
  by (simp add: floor_quotient_def floor_divide_of_int_eq)

lemma ceil_quotient_real:
  "b \<noteq> 0 \<Longrightarrow> ceil_quotient a b = Some \<lceil>real_of_int a / real_of_int b\<rceil>"
  by (simp add: ceil_quotient_def ceiling_divide_eq_div)

lemma list_handler_page:
  assumes "body (fst (list_handler proc e st q)) = Page items m"
  shows "m_skip m = Some (p_skip (proc q)) \<and> m_take m = Some (p_take (proc q))
     \<and> m_page m = map_option (\<lambda>x. x + 1) (floor_quotient (p_skip (proc q)) (p_take (proc q)))
     \<and> m_totalPages m = ceil_quotient (int (m_total m)) (p_take (proc q))"
  using assms
  by (auto simp: list_handler_def Let_def split: outcome.splits)

text \<open>
  C4: in the envelope of the list handler, for the \<^verbatim>\<open>skip\<close> and \<^verbatim>\<open>take\<close> that the
  query processor produced and the total that the count returned, \<^verbatim>\<open>meta.page\<close> is
  \<open>\<lfloor>skip / take\<rfloor> + 1\<close> and \<^verbatim>\<open>meta.totalPages\<close> is \<open>\<lceil>total / take\<rceil>\<close>, floor and
  ceiling of the quotient of real numbers. With a total of 25 and \<^verbatim>\<open>take\<close> 10 there are
  3 pages (the witness).
\<close>

theorem C4_list_envelope:
  assumes "proc = processLikesQueryParams \<or> proc = processFollowersQueryParams"
    and "exact_param (q_page q)" and "exact_param (q_limit q)"
    and "body (fst (list_handler proc e st q)) = Page items m"
    and "int (m_total m) \<le> MAX_SAFE_INTEGER"
  shows "m_page m = Some (\<lfloor>real_of_int (p_skip (proc q)) / real_of_int (p_take (proc q))\<rfloor> + 1)
         \<and> m_totalPages m = Some \<lceil>real (m_total m) / real_of_int (p_take (proc q))\<rceil>
         \<and> m_skip m = Some (p_skip (proc q)) \<and> m_take m = Some (p_take (proc q))"
proof -
  have nz: "p_take (proc q) \<noteq> 0"
    using proc_take_range[OF assms(1), of q] by linarith
  have c: "ceil_quotient (int (m_total m)) (p_take (proc q))
            = Some \<lceil>real (m_total m) / real_of_int (p_take (proc q))\<rceil>"
    using ceil_quotient_real[OF nz, of "int (m_total m)"] by simp
  show ?thesis
    using list_handler_page[OF assms(4)]
    by (simp add: floor_quotient_real[OF nz] c)
qed

theorem C4_list_envelope_witness:
  "body (fst (list_handler processLikesQueryParams Likes (sample_storage 25)
       \<lparr>q_page = Some ''2'', q_limit = Some ''10'', q_name = None, q_description = None\<rparr>))
     = Page [] \<lparr>m_total = 25, m_skip = Some 10, m_take = Some 10, m_page = Some 2,
               m_totalPages = Some 3\<rparr>
   \<and> \<lceil>real 25 / real_of_int 10\<rceil> = 3 \<and> \<lfloor>real_of_int 10 / real_of_int 10\<rfloor> + 1 = 2"
proof -
  let ?q = "\<lparr>q_page = Some ''2'', q_limit = Some ''10'', q_name = None, q_description = None\<rparr>"
  let ?m = "\<lparr>m_total = 25, m_skip = Some 10, m_take = Some 10, m_page = Some 2,
               m_totalPages = Some 3\<rparr>"
  have e: "exact_param (q_page ?q)" "exact_param (q_limit ?q)"
    by (simp_all add: exact_param_def parse_param_def parseInt_def is_js_space_def is_digit_def
        digits_value_def digit_val_def MAX_SAFE_INTEGER_def)
  have p: "processLikesQueryParams ?q = \<lparr>p_where = Map.empty, p_skip = 10, p_take = 10\<rparr>"
    by (simp add: processLikes_cases accepted_page_def accepted_limit_def parse_param_def
        parseInt_def is_js_space_def is_digit_def digits_value_def digit_val_def
        derive_take_def derive_skip_def add_contains_def)
  have b: "body (fst (list_handler processLikesQueryParams Likes (sample_storage 25) ?q))
             = Page [] ?m"
    by (simp add: list_handler_def p sample_storage_def Let_def floor_quotient_def
        ceil_quotient_def)
  have s: "int (m_total ?m) \<le> MAX_SAFE_INTEGER" by (simp add: MAX_SAFE_INTEGER_def)
  show ?thesis
    using C4_list_envelope[OF disjI1[OF refl] e b s] b by (simp add: p)
qed

section \<open>The search route\<close>

lemma search_schema_cases:
  assumes "schema = likesSearchQuerySchema \<or> schema = followersSearchQuerySchema"
  shows "schema q =
     (case sq_query q of
        None \<Rightarrow> Inl ((''query'', invalid_type)
                  # check_digits ''page'' (sq_page q) @ check_digits ''limit'' (sq_limit q))
      | Some s \<Rightarrow>
          parse_result ((if length s < 1 then [(''query'', too_small)] else [])
                        @ check_digits ''page'' (sq_page q) @ check_digits ''limit'' (sq_limit q))
            \<lparr>vq_query = s, vq_page = sq_page q, vq_limit = sq_limit q\<rparr>)"
  using assms
  by (auto simp: likesSearchQuerySchema_def followersSearchQuerySchema_def Let_def)

lemma search_schema_accepts:
  assumes "schema = likesSearchQuerySchema \<or> schema = followersSearchQuerySchema"
    and "schema q = Inr vq"
  shows "sq_query q = Some (vq_query vq) \<and> vq_query vq \<noteq> []
         \<and> vq_page vq = sq_page q \<and> vq_limit vq = sq_limit q
         \<and> check_digits ''page'' (sq_page q) = []
         \<and> check_digits ''limit'' (sq_limit q) = []"
  using assms(2) unfolding search_schema_cases[OF assms(1)]
  by (auto simp: parse_result_def split: option.splits if_splits)

lemma check_digits_ok: "check_digits path (Some s) = [] \<Longrightarrow> digit_string s"
  by (simp add: check_digits_def split: if_splits)


lemma search_limit_valid:
  assumes "check_digits ''limit'' (vq_limit vq) = []"
  shows "search_limit vq = Num (case vq_limit vq of None \<Rightarrow> 10 | Some s \<Rightarrow> digits_value s)"
proof (cases "vq_limit vq")
  case None
  then show ?thesis by (simp add: search_limit_def)
next
  case (Some s)
  then have d: "digit_string s" using assms check_digits_ok by simp
  then have "s \<noteq> []" by (simp add: digit_string_def)
  then show ?thesis using Some parseInt_digit_string[OF d] by (simp add: search_limit_def)
qed

lemma search_route_calls:
  "schema q = Inr vq \<Longrightarrow>
   snd (search_route schema e st q) =
     [FindMany (search_where e (vq_query vq)) (search_skip vq) (search_take vq),
      Count (search_where e (vq_query vq))]"
  by (simp add: search_route_def zValidator_def search_handler_def Let_def
      split: outcome.split)



lemma search_route_rejects:
  "schema q = Inl issues \<Longrightarrow>
   search_route schema e st q = (\<lparr>status = 400, body = Invalid issues\<rparr>, [])"
  by (simp add: search_route_def zValidator_def)

lemma search_route_query_required:
  assumes "schema = likesSearchQuerySchema \<or> schema = followersSearchQuerySchema"
    and "sq_query q = None \<or> sq_query q = Some []"
  shows "status (fst (search_route schema e st q)) = 400 \<and> snd (search_route schema e st q) = []"
proof -
  have "\<exists>issues. schema q = Inl issues"
    using assms(2) unfolding search_schema_cases[OF assms(1)]
    by (auto simp: parse_result_def)
  then obtain issues where "schema q = Inl issues" ..
  then show ?thesis by (simp add: search_route_rejects)
qed

text \<open>
  C9: the search schema accepts the page \<^verbatim>\<open>0\<close>; the search handler then computes
  \<open>skip = (0 - 1) * take = - take\<close> with \<^verbatim>\<open>take\<close> in [1,100], and this negative offset is
  the one handed to \<^verbatim>\<open>findMany\<close>.
\<close>

theorem C9_search_page_zero:
  assumes "schema = likesSearchQuerySchema \<or> schema = followersSearchQuerySchema"
    and "schema q = Inr vq"
    and "sq_page q = Some ''0''"
  shows "\<exists>t. 1 \<le> t \<and> t \<le> 100 \<and> search_take vq = Num t \<and> search_skip vq = Num (- t)
           \<and> FindMany (search_where e (vq_query vq)) (Num (- t)) (Num t)
               \<in> set (snd (search_route schema e st q))"
proof -
  note a = search_schema_accepts[OF assms(1,2)]
  let ?l = "case vq_limit vq of None \<Rightarrow> 10 | Some s \<Rightarrow> digits_value s"
  let ?t = "min (max ?l 1) 100"
  have l: "search_limit vq = Num ?l"
    using search_limit_valid[of vq] a by simp
  have t: "search_take vq = Num ?t"
    by (simp add: search_take_def l js_lift_def)
  have p: "search_page vq = Num 0"
    using a assms(3) by (simp add: search_page_def eval_defs)
  have s: "search_skip vq = Num (- ?t)"
    by (simp add: search_skip_def p t js_lift_def)
  have c: "snd (search_route schema e st q) =
             [FindMany (search_where e (vq_query vq)) (search_skip vq) (search_take vq),
              Count (search_where e (vq_query vq))]"
    using assms(2) by (rule search_route_calls)
  have "1 \<le> ?t \<and> ?t \<le> 100" by simp
  moreover have "FindMany (search_where e (vq_query vq)) (Num (- ?t)) (Num ?t)
               \<in> set (snd (search_route schema e st q))"
    by (simp add: c s t)
  ultimately show ?thesis using t s by blast
qed

theorem C9_search_page_zero_witness:
  "likesSearchQuerySchema \<lparr>sq_query = Some ''a'', sq_page = Some ''0'', sq_limit = Some ''25''\<rparr>
     = Inr \<lparr>vq_query = ''a'', vq_page = Some ''0'', vq_limit = Some ''25''\<rparr>
   \<and> search_skip \<lparr>vq_query = ''a'', vq_page = Some ''0'', vq_limit = Some ''25''\<rparr> = Num (- 25)
   \<and> (\<exists>t. 1 \<le> t \<and> t \<le> 100
         \<and> FindMany (search_where Hashtags ''a'') (Num (- t)) (Num t)
             \<in> set (snd (search_route likesSearchQuerySchema Hashtags (sample_storage 0)
                  \<lparr>sq_query = Some ''a'', sq_page = Some ''0'', sq_limit = Some ''25''\<rparr>)))"
proof -
  let ?q = "\<lparr>sq_query = Some ''a'', sq_page = Some ''0'', sq_limit = Some ''25''\<rparr>"
  let ?vq = "\<lparr>vq_query = ''a'', vq_page = Some ''0'', vq_limit = Some ''25''\<rparr>"
  have v: "likesSearchQuerySchema ?q = Inr ?vq"
    by (simp add: likesSearchQuerySchema_def eval_defs)
  have p: "sq_page ?q = Some ''0''" by simp
  have s: "search_skip ?vq = Num (- 25)"
    by (simp add: search_skip_def search_take_def search_page_def search_limit_def js_lift_def
        eval_defs)
  from C9_search_page_zero[where e = Hashtags and st = "sample_storage 0",
      OF disjI1[OF refl] v p]
  obtain t where "1 \<le> t" "t \<le> 100"
    "FindMany (search_where Hashtags (vq_query ?vq)) (Num (- t)) (Num t)
       \<in> set (snd (search_route likesSearchQuerySchema Hashtags (sample_storage 0) ?q))"
    by blast
  then have "\<exists>t. 1 \<le> t \<and> t \<le> 100
         \<and> FindMany (search_where Hashtags ''a'') (Num (- t)) (Num t)
             \<in> set (snd (search_route likesSearchQuerySchema Hashtags (sample_storage 0) ?q))"
    by (intro exI[of _ t]) simp
  then show ?thesis using v s by simp
qed

section \<open>The get-by-id route and the routers\<close>

lemma get_by_id_route_handler: "get_by_id_route e st ident = get_by_id_handler e st ident"
  by (simp add: get_by_id_route_def zValidator_def)

lemma get_by_id_throws:
  "st_findUnique st ident = Throws err \<Longrightarrow>
   get_by_id_route e st ident =
     (\<lparr>status = 200,
       body = Failure ''Failed to retrieve item''
                (Some (error_details err ''An unknown error occurred''))\<rparr>,
      [FindUnique ident])"
  by (simp add: get_by_id_route_handler get_by_id_handler_def)

text \<open>
  C6: when \<^verbatim>\<open>findUnique\<close> fails, the get-by-id handler answers with status 500. The
  code does not: its catch branch never sets the status, so the error body goes out with
  status 200, whereas the catch branch of the list handler in the same routers sets 500.
  The theorem evaluates both handlers on a storage whose every call rejects.
\<close>

theorem C6_get_by_id_failure_status:
  "st_findUnique failing_storage ''1'' = Throws (ErrorObj ''connection lost'')
   \<and> get_by_id_route Hashtags failing_storage ''1'' =
       (\<lparr>status = 200,
         body = Failure ''Failed to retrieve item'' (Some ''connection lost'')\<rparr>,
        [FindUnique ''1''])
   \<and> status (fst (get_by_id_route Hashtags failing_storage ''1'')) \<noteq> 500
   \<and> status (fst (list_handler processLikesQueryParams Likes failing_storage
        \<lparr>q_page = None, q_limit = None, q_name = None, q_description = None\<rparr>)) = 500"
  by (simp add: get_by_id_throws failing_storage_def error_details_def list_handler_def Let_def)

lemma dispatch_get_cases:
  "dispatch (routes e) GET path =
     (case path of
        [] \<Rightarrow> Some (ListH, [])
      | [x] \<Rightarrow> if x \<noteq> [] then Some (GetByIdH, [(''id'', x)]) else None
      | _ \<Rightarrow> None)"
  by (simp add: routes_def split: list.split)

lemma serve_get_search:
  "serve_get vs e st \<lparr>r_path = [''search''], r_query = qs\<rparr>
     = Some (get_by_id_handler e st ''search'')"
  by (simp add: serve_get_def dispatch_get_cases get_by_id_route_handler)

text \<open>
  C7: a search request whose \<^verbatim>\<open>query\<close> parameter is missing or empty is answered with
  400 before any storage call. The search route by itself does so
  (\<open>search_route_query_required\<close>), but the router never hands it a request: a GET for
  \<^verbatim>\<open>/search\<close> is taken by the route \<^verbatim>\<open>/:id\<close> registered before it, so the request is
  answered by the get-by-id handler after a \<^verbatim>\<open>findUnique\<close> call for the id
  \<^verbatim>\<open>search\<close>, here with 404. The theorem evaluates the likes router on an empty and on
  a missing \<^verbatim>\<open>query\<close>, and the search route alone on the empty one.
\<close>

theorem C7_search_request_not_rejected:
  "serve_get likes_validations Likes (sample_storage 0)
       \<lparr>r_path = [''search''], r_query = [''query'' \<mapsto> []]\<rparr>
     = Some (\<lparr>status = 404, body = Failure ''likes not found'' None\<rparr>, [FindUnique ''search''])
   \<and> serve_get likes_validations Likes (sample_storage 0)
       \<lparr>r_path = [''search''], r_query = Map.empty\<rparr>
     = Some (\<lparr>status = 404, body = Failure ''likes not found'' None\<rparr>, [FindUnique ''search''])
   \<and> search_route likesSearchQuerySchema Likes (sample_storage 0)
       \<lparr>sq_query = Some [], sq_page = None, sq_limit = None\<rparr>
     = (\<lparr>status = 400, body = Invalid [(''query'', too_small)]\<rparr>, [])"
  by (simp add: serve_get_search get_by_id_handler_def sample_storage_def search_route_def
      zValidator_def likesSearchQuerySchema_def check_digits_def parse_result_def)

text \<open>
  C8: every router registers \<^verbatim>\<open>GET /:id\<close> (second) before \<^verbatim>\<open>GET /search\<close> (sixth).
  Dispatching in the order of registration, a GET request for the path \<^verbatim>\<open>search\<close>
  goes to the get-by-id handler with the id \<^verbatim>\<open>search\<close>, whatever its query string, and
  no GET request reaches the search handler.
\<close>

theorem C8_search_route_shadowed:
  "routes e ! 1 = (GET, [Param ''id''], GetByIdH)
   \<and> routes e ! 5 = (GET, [Lit ''search''], SearchH)
   \<and> dispatch (routes e) GET [''search''] = Some (GetByIdH, [(''id'', ''search'')])
   \<and> (\<forall>path params. dispatch (routes e) GET path \<noteq> Some (SearchH, params))
   \<and> serve_get vs e st \<lparr>r_path = [''search''], r_query = qs\<rparr>
       = Some (get_by_id_handler e st ''search'')"
proof (intro conjI allI)
  show "routes e ! 1 = (GET, [Param ''id''], GetByIdH)" by (simp add: routes_def)
  show "routes e ! 5 = (GET, [Lit ''search''], SearchH)" by (simp add: routes_def)
  show d: "dispatch (routes e) GET [''search''] = Some (GetByIdH, [(''id'', ''search'')])"
    by (simp add: dispatch_get_cases)
  show "dispatch (routes e) GET path \<noteq> Some (SearchH, params)" for path params
    by (simp add: dispatch_get_cases split: list.split)
  show "serve_get vs e st \<lparr>r_path = [''search''], r_query = qs\<rparr>
       = Some (get_by_id_handler e st ''search'')"
    by (simp add: serve_get_def d get_by_id_route_handler)
qed

theorem C8_search_route_shadowed_witness:
  "dispatch (routes Likes) GET [''search''] = Some (GetByIdH, [(''id'', ''search'')])
   \<and> serve_get likes_validations Likes (sample_storage 0)
        \<lparr>r_path = [''search''], r_query = [''query'' \<mapsto> ''abc'']\<rparr>
       = Some (\<lparr>status = 404, body = Failure ''likes not found'' None\<rparr>,
               [FindUnique ''search''])"
proof -
  have "get_by_id_handler Likes (sample_storage 0) ''search''
          = (\<lparr>status = 404, body = Failure ''likes not found'' None\<rparr>, [FindUnique ''search''])"
    by (simp add: get_by_id_handler_def sample_storage_def)
  then show ?thesis
    using C8_search_route_shadowed[of Likes likes_validations "sample_storage 0"
        "[''query'' \<mapsto> ''abc'']"]
    by simp
qed

end
